theory Spec2Isabelle
  imports Main
begin

section \<open>The PiCamera capture backend (src/platform/linux/picamera_capture.cpp)\<close>

text \<open>
  A shallow embedding of the capture backend. The C++ classes become records, their
  member functions become functions that take the object and return it updated, and
  the calls into the multimedia library (libavformat, libavcodec, libswscale), the
  filesystem, the clock, the allocator and the consumer's callbacks are inputs of the
  model: each function takes the outcomes of the external calls it makes as a
  parameter, so every theorem holds for every behaviour of those collaborators.

  Integers of the source (\<open>int\<close>, the 64-bit nanosecond counts of
  \<open>std::chrono\<close>) are modelled as \<open>int\<close>. The products \<open>width * 4\<close> are taken in
  32-bit arithmetic with the wrap-around written out (\<open>int32\<close>), as they are stored
  in the 32-bit \<open>row_pitch\<close>; the sizes passed to \<open>new\<close> are taken modulo \<open>2^64\<close>.
  The steady clock does not reach \<open>2^63\<close> nanoseconds, so its sums are exact.
  Logging (\<open>BOOST_LOG\<close>, the sleep-overshoot logger) has no effect on the results and
  is left out.
\<close>

subsection \<open>Results of a capture step\<close>

text \<open>\<open>platf::capture_e\<close> is declared in src/platform/common.h; this file uses
  \<open>ok\<close>, \<open>timeout\<close>, \<open>interrupted\<close> and \<open>error\<close>.\<close>

datatype capture_e = ok | reinit | timeout | interrupted | error

text \<open>\<open>AVERROR(EAGAIN)\<close> on Linux: \<open>EAGAIN\<close> is 11 and \<open>AVERROR\<close> negates.\<close>

definition AVERROR_EAGAIN :: int where
  "AVERROR_EAGAIN = - 11"

text \<open>The value a 32-bit \<open>int\<close> holds for the arithmetic result \<open>x\<close> (two's complement).\<close>

definition int32 :: "int \<Rightarrow> int" where
  "int32 x = (x + 2 ^ 31) mod 2 ^ 32 - 2 ^ 31"

subsection \<open>\<open>std::to_string\<close> on integers\<close>

definition digit_char :: "nat \<Rightarrow> char" where
  "digit_char d = char_of (48 + d)"

function to_string_nat :: "nat \<Rightarrow> string" where
  "to_string_nat n =
     (if n < 10 then [digit_char n] else to_string_nat (n div 10) @ [digit_char (n mod 10)])"
  by pat_completeness auto
termination
  by (relation "measure (\<lambda>n. n)") auto

declare to_string_nat.simps [simp del]

definition to_string :: "int \<Rightarrow> string" where
  "to_string i = (if i < 0 then CHR ''-'' # to_string_nat (nat (- i)) else to_string_nat (nat i))"

subsection \<open>Capture configuration\<close>

text \<open>The fields of \<open>video::config_t\<close> that this file reads.\<close>

record config_t =
  cfg_width :: int
  cfg_height :: int
  framerate :: int

subsection \<open>The multimedia library as seen by \<open>init\<close>\<close>

text \<open>
  What the library answers to the calls made while a session is opened. Handles
  (\<open>AVFormatContext *\<close>, \<open>AVCodecContext *\<close>) are natural numbers, a null pointer is
  \<open>None\<close>. \<open>avformat_open_input\<close> gives its result code and the handle it stores
  through its first argument on success; on failure it leaves that pointer null.
\<close>

record AVCodecParameters =
  codec_id :: int
  par_width :: int
  par_height :: int

record libav =
  av_find_input_format :: "string \<Rightarrow> bool"
  avformat_open_input :: "string \<Rightarrow> (string \<times> string) list \<Rightarrow> int \<times> nat"
  avformat_find_stream_info :: "nat \<Rightarrow> int"
  av_find_best_stream :: "nat \<Rightarrow> int"
  stream_codecpar :: "nat \<Rightarrow> int \<Rightarrow> AVCodecParameters"
  avcodec_find_decoder :: "int \<Rightarrow> bool"
  avcodec_alloc_context3 :: "nat option"
  avcodec_parameters_to_context :: int
  avcodec_open2 :: int

subsection \<open>Device session: \<open>format_context_t\<close>\<close>

record format_context_t =
  ctx :: "nat option"
  stream_index :: int

definition format_context_new :: format_context_t where
  "format_context_new = \<lparr>ctx = None, stream_index = - 1\<rparr>"

text \<open>The dictionary of advisory options built at the start of \<open>open\<close>.\<close>

definition open_options :: "config_t \<Rightarrow> (string \<times> string) list" where
  "open_options cfg =
     (if cfg_width cfg > 0 \<and> cfg_height cfg > 0
      then [(''video_size'', to_string (cfg_width cfg) @ ''x'' @ to_string (cfg_height cfg))]
      else []) @
     (if framerate cfg > 0 then [(''framerate'', to_string (framerate cfg))] else [])"

text \<open>\<open>format_context_t::open\<close>: the four steps, each with its early return.\<close>

definition format_open ::
  "libav \<Rightarrow> string \<Rightarrow> config_t \<Rightarrow> format_context_t \<Rightarrow> bool \<times> format_context_t" where
  "format_open lib device cfg f =
     (if \<not> av_find_input_format lib ''v4l2'' then (False, f)
      else
        let (result, h) = avformat_open_input lib device (open_options cfg);
            f1 = f\<lparr>ctx := (if result < 0 then None else Some h)\<rparr>
        in if result < 0 then (False, f1)
           else if avformat_find_stream_info lib h < 0 then (False, f1)
           else
             let f2 = f1\<lparr>stream_index := av_find_best_stream lib h\<rparr>
             in if stream_index f2 < 0 then (False, f2) else (True, f2))"

text \<open>\<open>format_context_t::close\<close>: a no-op on a null handle.\<close>

definition format_close :: "format_context_t \<Rightarrow> format_context_t" where
  "format_close f =
     (case ctx f of
        None \<Rightarrow> f
      | Some h \<Rightarrow> f\<lparr>ctx := None, stream_index := - 1\<rparr>)"

text \<open>\<open>format_context_t::stream\<close>; the stream is represented by its codec parameters.\<close>

definition stream :: "libav \<Rightarrow> format_context_t \<Rightarrow> AVCodecParameters option" where
  "stream lib f =
     (case ctx f of
        None \<Rightarrow> None
      | Some h \<Rightarrow> if stream_index f < 0 then None else Some (stream_codecpar lib h (stream_index f)))"

subsection \<open>Decode session: \<open>codec_context_t\<close>\<close>

definition codec_open :: "libav \<Rightarrow> AVCodecParameters option \<Rightarrow> nat option \<Rightarrow> bool \<times> nat option" where
  "codec_open lib params c =
     (case params of
        None \<Rightarrow> (False, c)
      | Some p \<Rightarrow>
          if \<not> avcodec_find_decoder lib (codec_id p) then (False, c)
          else
            (case avcodec_alloc_context3 lib of
               None \<Rightarrow> (False, None)
             | Some h \<Rightarrow>
                 if avcodec_parameters_to_context lib < 0 then (False, Some h)
                 else if avcodec_open2 lib < 0 then (False, Some h)
                 else (True, Some h)))"

subsection \<open>Conversion session: \<open>scale_context_t\<close>\<close>

record sws_params =
  srcW :: int
  srcH :: int
  srcFormat :: int
  dstW :: int
  dstH :: int
  dstFormat :: int
  sws_flags :: int

text \<open>A converter is known by its handle and the parameters it was built for.\<close>

record SwsContext =
  sws_handle :: nat
  sws_built_for :: sws_params

definition AV_PIX_FMT_BGRA :: int where
  "AV_PIX_FMT_BGRA = 28"

definition SWS_BILINEAR :: int where
  "SWS_BILINEAR = 2"

subsection \<open>Frame buffers and the observable actions of the pipeline\<close>

text \<open>
  \<open>platf::img_t\<close> (src/platform/common.h) with the fields this file uses. \<open>data\<close> is the
  address of the pixel allocation, \<open>None\<close> for a null pointer; the pixels themselves
  are not modelled.
\<close>

record img_t =
  img_width :: int
  img_height :: int
  row_pitch :: int
  pixel_pitch :: int
  data :: "nat option"
  frame_timestamp :: "int option"

text \<open>A fresh \<open>picamera_frame_t\<close>: the zero-initialised \<open>img_t\<close> with the pixel pitch
  set by the constructor.\<close>

definition picamera_frame_new :: img_t where
  "picamera_frame_new =
     \<lparr>img_width = 0, img_height = 0, row_pitch = 0, pixel_pitch = 4, data = None,
      frame_timestamp = None\<rparr>"

text \<open>
  Each function returns, next to its result, the list of the external actions it
  performed, in order: library calls, allocations and releases, sleeps and the calls
  of the consumer's callbacks. \<open>Push p img is_new accepted\<close> is a call of
  \<open>push_captured_image_cb\<close> on the buffer at \<open>p\<close> with contents \<open>img\<close>, together with
  what the callback returned.
\<close>

datatype event =
    Sleep int
  | Pull nat
  | PullRefused
  | AvReadFrame
  | PacketUnref
  | SendPacket
  | ReceiveFrame
  | SwsFree nat
  | SwsNew nat sws_params
  | Delete nat
  | New nat nat
  | SwsScale
  | Push nat img_t bool bool

text \<open>
  What the collaborators answer during one call of \<open>read_frame\<close>: the result codes of
  the library calls, the packet's stream index, the decoded frame's geometry and
  pixel format, the converter factory (\<open>None\<close> when the engine cannot be built for
  the parameters), \<open>operator new[]\<close> (\<open>None\<close> for \<open>std::bad_alloc\<close>) and the clock.
\<close>

record frame_io =
  read_result :: int
  packet_stream_index :: int
  send_result :: int
  frame_alloc_ok :: bool
  receive_result :: int
  frame_width :: int
  frame_height :: int
  frame_format :: int
  sws_getContext :: "sws_params \<Rightarrow> nat option"
  operator_new :: "nat \<Rightarrow> nat option"
  sws_scale_result :: int
  steady_now :: int

text \<open>
  Modelled from the spec: \<open>sws_getCachedContext\<close>, the call of libswscale through
  which \<open>configure\<close> obtains its converter, is not part of this repository. As the
  specification describes the Conversion Session, and as libswscale documents the
  call: a held converter whose parameters differ from the requested ones is freed;
  when none is left a new one is built, which may fail; a held converter with the
  requested parameters is returned as it is.
\<close>

definition sws_getCachedContext ::
  "(sws_params \<Rightarrow> nat option) \<Rightarrow> SwsContext option \<Rightarrow> sws_params \<Rightarrow> SwsContext option \<times> event list" where
  "sws_getCachedContext create context p =
     (let (kept, released) =
            (case context of
               None \<Rightarrow> (None, [])
             | Some c \<Rightarrow>
                 if sws_built_for c \<noteq> p then (None, [SwsFree (sws_handle c)]) else (Some c, []))
      in case kept of
           Some c \<Rightarrow> (Some c, released)
         | None \<Rightarrow>
             (case create p of
                None \<Rightarrow> (None, released)
              | Some h \<Rightarrow>
                  (Some \<lparr>sws_handle = h, sws_built_for = p\<rparr>, released @ [SwsNew h p])))"

text \<open>\<open>scale_context_t::configure\<close>, on the member \<open>ctx\<close> of the scaler.\<close>

definition configure ::
  "(sws_params \<Rightarrow> nat option) \<Rightarrow> int \<Rightarrow> int \<Rightarrow> int \<Rightarrow> int \<Rightarrow> int \<Rightarrow> SwsContext option
     \<Rightarrow> bool \<times> SwsContext option \<times> event list" where
  "configure create src_w src_h src_fmt dst_w dst_h s =
     (let (c, es) = sws_getCachedContext create s
            \<lparr>srcW = src_w, srcH = src_h, srcFormat = src_fmt, dstW = dst_w, dstH = dst_h,
             dstFormat = AV_PIX_FMT_BGRA, sws_flags = SWS_BILINEAR\<rparr>
      in if c = None then (False, c, es) else (True, c, es))"

subsection \<open>The capture object: \<open>picamera_display_t\<close>\<close>

record picamera_display_t =
  device :: string
  width :: int
  height :: int
  env_width :: int
  env_height :: int
  format :: format_context_t
  codec :: "nat option"
  scaler :: "SwsContext option"
  delay :: int

text \<open>The constructor, with the member initialisers of the class. \<open>env_width\<close> and
  \<open>env_height\<close> belong to the base class \<open>platf::display_t\<close> (src/platform/common.h);
  the constructor does not assign them, and they are 0 here until \<open>init\<close> or
  \<open>read_frame\<close> sets them.\<close>

definition picamera_display_new :: "string \<Rightarrow> picamera_display_t" where
  "picamera_display_new device_path =
     \<lparr>device = device_path, width = 1280, height = 720, env_width = 0, env_height = 0,
      format = format_context_new, codec = None, scaler = None,
      delay = 1000000000 div 30\<rparr>"

text \<open>\<open>picamera_display_t::init\<close>. The delay is in nanoseconds.\<close>

definition init :: "libav \<Rightarrow> config_t \<Rightarrow> picamera_display_t \<Rightarrow> bool \<times> picamera_display_t" where
  "init lib cfg d0 =
     (let d1 = d0\<lparr>delay := 1000000000 div (max 1 (framerate cfg))\<rparr>;
          (opened, f) = format_open lib (device d1) cfg (format d1);
          d2 = d1\<lparr>format := f\<rparr>
      in if \<not> opened then (False, d2)
         else
           (case stream lib f of
              None \<Rightarrow> (False, d2)
            | Some par \<Rightarrow>
                let d3 = d2\<lparr>width := par_width par, height := par_height par,
                            env_width := par_width par, env_height := par_height par\<rparr>;
                    (decoding, c) = codec_open lib (Some par) (codec d3);
                    d4 = d3\<lparr>codec := c\<rparr>
                in if \<not> decoding then (False, d4) else (True, d4)))"

subsection \<open>Filling a buffer: \<open>read_frame\<close>\<close>

text \<open>\<open>static_cast<size_t>(row_pitch) * height\<close> on a 64-bit target.\<close>

definition alloc_size :: "int \<Rightarrow> int \<Rightarrow> nat" where
  "alloc_size pitch h = nat (((pitch mod 2 ^ 64) * (h mod 2 ^ 64)) mod 2 ^ 64)"

text \<open>\<open>picamera_display_t::alloc_img\<close>; \<open>None\<close> when the allocation throws.\<close>

definition alloc_img :: "(nat \<Rightarrow> nat option) \<Rightarrow> picamera_display_t \<Rightarrow> img_t option" where
  "alloc_img new d =
     (let image = picamera_frame_new\<lparr>row_pitch := int32 (width d * 4), img_height := height d\<rparr>
      in case new (alloc_size (row_pitch image) (img_height image)) of
           None \<Rightarrow> None
         | Some a \<Rightarrow> Some (image\<lparr>data := Some a\<rparr>))"

text \<open>
  The reallocation block of \<open>read_frame\<close> (the \<open>if\<close> on \<open>img.data\<close>, \<open>img.row_pitch\<close>
  and \<open>img.height\<close>). \<open>frame->width * 4\<close> is a product of 32-bit ints. \<open>delete[]\<close> of a
  null pointer does nothing. The first component is \<open>False\<close> when \<open>new\<close> throws; the
  buffer then keeps the released address.
\<close>

definition fit_buffer ::
  "(nat \<Rightarrow> nat option) \<Rightarrow> int \<Rightarrow> int \<Rightarrow> img_t \<Rightarrow> bool \<times> img_t \<times> event list" where
  "fit_buffer new fw fh img =
     (if data img = None \<or> row_pitch img \<noteq> int32 (fw * 4) \<or> img_height img \<noteq> fh
      then
        let released = (case data img of None \<Rightarrow> [] | Some a \<Rightarrow> [Delete a]);
            img1 = img\<lparr>row_pitch := int32 (fw * 4), img_height := fh\<rparr>;
            n = alloc_size (row_pitch img1) (img_height img1)
        in case new n of
             None \<Rightarrow> (False, img1, released)
           | Some a \<Rightarrow> (True, img1\<lparr>data := Some a\<rparr>, released @ [New a n])
      else (True, img, []))"

text \<open>The result of a fill: a status, or the exception of a failed allocation.\<close>

datatype fill_result = Status capture_e | bad_alloc

text \<open>The second half of \<open>read_frame\<close>, from the decoded frame on: geometry,
  converter, buffer, conversion, timestamp.\<close>

definition store_frame ::
  "frame_io \<Rightarrow> picamera_display_t \<Rightarrow> img_t
     \<Rightarrow> fill_result \<times> picamera_display_t \<times> img_t \<times> event list" where
  "store_frame io d img =
     (let fw = frame_width io; fh = frame_height io;
          d1 = d\<lparr>width := fw, height := fh, env_width := fw, env_height := fh\<rparr>;
          (configured, s, es1) = configure (sws_getContext io) fw fh (frame_format io) fw fh (scaler d1);
          d2 = d1\<lparr>scaler := s\<rparr>
      in if \<not> configured then (Status error, d2, img, es1)
         else
           let (fitted, img1, es2) = fit_buffer (operator_new io) fw fh img
           in if \<not> fitted then (bad_alloc, d2, img1, es1 @ es2)
              else
                let img2 = img1\<lparr>img_width := fw, img_height := fh, pixel_pitch := 4\<rparr>
                in if sws_scale_result io \<le> 0
                   then (Status error, d2, img2, es1 @ es2 @ [SwsScale])
                   else (Status ok, d2, img2\<lparr>frame_timestamp := Some (steady_now io)\<rparr>,
                         es1 @ es2 @ [SwsScale]))"

text \<open>\<open>picamera_display_t::read_frame\<close>.\<close>

definition read_frame ::
  "frame_io \<Rightarrow> picamera_display_t \<Rightarrow> img_t
     \<Rightarrow> fill_result \<times> picamera_display_t \<times> img_t \<times> event list" where
  "read_frame io d img =
     (if read_result io < 0
      then (if read_result io = AVERROR_EAGAIN
            then (Status timeout, d, img, [AvReadFrame])
            else (Status error, d, img, [AvReadFrame]))
      else if packet_stream_index io \<noteq> stream_index (format d)
      then (Status timeout, d, img, [AvReadFrame, PacketUnref])
      else if send_result io < 0
      then (Status error, d, img, [AvReadFrame, SendPacket, PacketUnref])
      else if \<not> frame_alloc_ok io
      then (Status error, d, img, [AvReadFrame, SendPacket, PacketUnref])
      else if receive_result io = AVERROR_EAGAIN
      then (Status timeout, d, img, [AvReadFrame, SendPacket, PacketUnref, ReceiveFrame])
      else if receive_result io < 0
      then (Status error, d, img, [AvReadFrame, SendPacket, PacketUnref, ReceiveFrame])
      else
        let (st, d1, img1, es) = store_frame io d img
        in (st, d1, img1, [AvReadFrame, SendPacket, PacketUnref, ReceiveFrame] @ es))"

subsection \<open>The paced loop: \<open>capture\<close>\<close>

text \<open>
  What the environment presents in one iteration of the loop: the clock reading
  taken at its start, the answer of \<open>pull_free_image_cb\<close> (the buffer's address and
  contents, or a refusal), the collaborators' answers during the fill, and the
  answer of \<open>push_captured_image_cb\<close> should it be called.
\<close>

record iteration =
  now :: int
  pull_free_image :: "(nat \<times> img_t) option"
  fill :: frame_io
  push_captured_image :: bool

text \<open>The pacing block at the head of the loop body: the sleep, then the advance of
  \<open>next_frame\<close> with its resynchronisation. \<open>now\<close> is read once, before the sleep.\<close>

definition pace :: "int \<Rightarrow> int \<Rightarrow> int \<Rightarrow> int \<times> event list" where
  "pace dl next_frame nw =
     (let slept = (if next_frame > nw then [Sleep (next_frame - nw)] else []);
          advanced = next_frame + dl
      in (if advanced < nw then nw + dl else advanced, slept))"

text \<open>How \<open>capture\<close> ends: with a returned status, or with the exception that
  \<open>read_frame\<close> let through.\<close>

datatype capture_result = Returned capture_e | Threw

text \<open>One pass through the body of \<open>while (true)\<close>. The first component is \<open>None\<close>
  when the loop goes on to the next iteration.\<close>

definition capture_iter ::
  "picamera_display_t \<Rightarrow> int \<Rightarrow> iteration
     \<Rightarrow> capture_result option \<times> picamera_display_t \<times> int \<times> event list" where
  "capture_iter d next_frame it =
     (let (nf, es0) = pace (delay d) next_frame (now it)
      in case pull_free_image it of
           None \<Rightarrow> (Some (Returned interrupted), d, nf, es0 @ [PullRefused])
         | Some (p, img) \<Rightarrow>
             let (st, d1, img1, es1) = read_frame (fill it) d img
             in case st of
                  bad_alloc \<Rightarrow> (Some Threw, d1, nf, es0 @ [Pull p] @ es1)
                | Status status \<Rightarrow>
                    if status = ok
                    then (if \<not> push_captured_image it
                          then (Some (Returned ok), d1, nf,
                                es0 @ [Pull p] @ es1 @ [Push p img1 True False])
                          else (None, d1, nf, es0 @ [Pull p] @ es1 @ [Push p img1 True True]))
                    else if status = timeout
                    then (if \<not> push_captured_image it
                          then (Some (Returned ok), d1, nf,
                                es0 @ [Pull p] @ es1 @ [Push p img1 False False])
                          else (None, d1, nf, es0 @ [Pull p] @ es1 @ [Push p img1 False True]))
                    else (Some (Returned status), d1, nf, es0 @ [Pull p] @ es1))"

text \<open>
  The loop over the iterations the environment presents. The loop of the source has
  no exit of its own; a run that has consumed every presented iteration without
  returning is still running, which is the result \<open>None\<close>.
\<close>

fun capture_loop ::
  "picamera_display_t \<Rightarrow> int \<Rightarrow> iteration list
     \<Rightarrow> capture_result option \<times> picamera_display_t \<times> int \<times> event list" where
  "capture_loop d next_frame [] = (None, d, next_frame, [])"
| "capture_loop d next_frame (it # its) =
     (case capture_iter d next_frame it of
        (Some r, d1, nf, es) \<Rightarrow> (Some r, d1, nf, es)
      | (None, d1, nf, es) \<Rightarrow>
          (case capture_loop d1 nf its of (r, d2, nf2, es2) \<Rightarrow> (r, d2, nf2, es @ es2)))"

text \<open>\<open>picamera_display_t::capture\<close>: \<open>start\<close> is the clock reading that initialises
  \<open>next_frame\<close>.\<close>

definition capture ::
  "picamera_display_t \<Rightarrow> int \<Rightarrow> iteration list
     \<Rightarrow> capture_result option \<times> picamera_display_t \<times> int \<times> event list" where
  "capture d start its = capture_loop d start its"

subsection \<open>Capture facade\<close>

definition DEFAULT_DEVICE :: string where
  "DEFAULT_DEVICE = ''/dev/video0''"

text \<open>
  The filesystem is what \<open>std::filesystem::exists\<close> does for a path: it returns
  \<open>Some True\<close> or \<open>Some False\<close>, or throws \<open>filesystem_error\<close> when the status of the path
  cannot be determined (a symlink loop, a directory that may not be searched), which
  is \<open>None\<close>. The source calls the throwing overload and has no handler, so the
  exception leaves \<open>initialize\<close> and \<open>display_names\<close>: their result is then \<open>None\<close>.
\<close>

definition initialize :: "(string \<Rightarrow> bool option) \<Rightarrow> bool option" where
  "initialize exists = exists DEFAULT_DEVICE"

definition device_path :: "nat \<Rightarrow> string" where
  "device_path idx = ''/dev/video'' @ to_string (int idx)"




definition create_display ::
  "libav \<Rightarrow> string \<Rightarrow> config_t \<Rightarrow> picamera_display_t option" where
  "create_display lib dev config =
     (let resolved = (if dev = [] then DEFAULT_DEVICE else dev);
          (initialised, display) = init lib config (picamera_display_new resolved)
      in if \<not> initialised then None else Some display)"

subsection \<open>Reading the list of actions\<close>

text \<open>The allocations and releases of pixel storage among the actions of a call.\<close>

fun is_allocation_event :: "event \<Rightarrow> bool" where
  "is_allocation_event (Delete a) = True"
| "is_allocation_event (New a n) = True"
| "is_allocation_event e = False"

definition allocation_events :: "event list \<Rightarrow> event list" where
  "allocation_events es = filter is_allocation_event es"

text \<open>The calls of \<open>push_captured_image_cb\<close> among the actions of a call.\<close>

fun is_push :: "event \<Rightarrow> bool" where
  "is_push (Push p img is_new accepted) = True"
| "is_push e = False"

definition pushes :: "event list \<Rightarrow> event list" where
  "pushes es = filter is_push es"

text \<open>The accepted push of an iteration's pulled buffer, unchanged, as a repeat.\<close>

definition repeat_push :: "iteration \<Rightarrow> event list" where
  "repeat_push it =
     (case pull_free_image it of
        None \<Rightarrow> []
      | Some (p, img) \<Rightarrow> [Push p img False True])"

subsection \<open>Example inputs\<close>

text \<open>A library that opens the device as handle 7, finds its video stream at index 0
  with 1280x720 frames, and opens the decoder.\<close>

definition camera_lib :: libav where
  "camera_lib =
     \<lparr>av_find_input_format = (\<lambda>name. name = ''v4l2''),
      avformat_open_input = (\<lambda>dev opts. (0, 7)),
      avformat_find_stream_info = (\<lambda>h. 0),
      av_find_best_stream = (\<lambda>h. 0),
      stream_codecpar = (\<lambda>h i. \<lparr>codec_id = 13, par_width = 1280, par_height = 720\<rparr>),
      avcodec_find_decoder = (\<lambda>c. True),
      avcodec_alloc_context3 = Some 9,
      avcodec_parameters_to_context = 0,
      avcodec_open2 = 0\<rparr>"

text \<open>A configuration that leaves size and frame rate unspecified.\<close>

definition unspecified_cfg :: config_t where
  "unspecified_cfg = \<lparr>cfg_width = 0, cfg_height = 0, framerate = 0\<rparr>"

text \<open>Libraries that open the device and then fail: at the stream-info probe, and at
  the search for a video stream (with \<open>AVERROR_STREAM_NOT_FOUND\<close>).\<close>

definition probe_failing_lib :: libav where
  "probe_failing_lib = camera_lib\<lparr>avformat_find_stream_info := (\<lambda>h. - 5)\<rparr>"

definition streamless_lib :: libav where
  "streamless_lib = camera_lib\<lparr>av_find_best_stream := (\<lambda>h. - 1381258232)\<rparr>"

text \<open>The capture object after a successful \<open>init\<close>.\<close>

definition opened_display :: picamera_display_t where
  "opened_display = snd (init camera_lib unspecified_cfg (picamera_display_new DEFAULT_DEVICE))"

text \<open>A fill that decodes a frame of 2x1 pixels from the video stream; the allocator
  answers with address 100 and the converter factory with handle 3.\<close>

definition small_frame_io :: frame_io where
  "small_frame_io =
     \<lparr>read_result = 0, packet_stream_index = 0, send_result = 0, frame_alloc_ok = True,
      receive_result = 0, frame_width = 2, frame_height = 1, frame_format = 0,
      sws_getContext = (\<lambda>p. Some 3), operator_new = (\<lambda>n. Some 100),
      sws_scale_result = 1, steady_now = 5000\<rparr>"

text \<open>A fill that decodes a frame 1073741824 pixels wide, and the buffer it produces
  from the 4x4 buffer below.\<close>

definition wide_frame_io :: frame_io where
  "wide_frame_io = small_frame_io\<lparr>frame_width := 1073741824\<rparr>"

definition wide_filled_img :: img_t where
  "wide_filled_img =
     \<lparr>img_width = 1073741824, img_height = 1, row_pitch = 0, pixel_pitch = 4, data = Some 100,
      frame_timestamp = Some 5000\<rparr>"




text \<open>Fills for which the device has nothing ready, and which read a packet of
  another stream.\<close>

definition empty_io :: frame_io where
  "empty_io = small_frame_io\<lparr>read_result := - 11\<rparr>"

definition other_stream_io :: frame_io where
  "other_stream_io = small_frame_io\<lparr>packet_stream_index := 1\<rparr>"

text \<open>A buffer with the width, height and row pitch of a 2x1 frame and no pixel
  storage, and a buffer of 4x4 pixels stored at address 50.\<close>

definition unbacked_img :: img_t where
  "unbacked_img = picamera_frame_new\<lparr>img_width := 2, img_height := 1, row_pitch := 8\<rparr>"

definition backed_img :: img_t where
  "backed_img = picamera_frame_new\<lparr>img_width := 4, img_height := 4, row_pitch := 16, data := Some 50\<rparr>"

text \<open>The converter parameters, the capture object and the buffer after a 2x1 frame
  has been stored.\<close>

definition small_params :: sws_params where
  "small_params =
     \<lparr>srcW = 2, srcH = 1, srcFormat = 0, dstW = 2, dstH = 1, dstFormat = AV_PIX_FMT_BGRA,
      sws_flags = SWS_BILINEAR\<rparr>"

definition small_display :: picamera_display_t where
  "small_display =
     opened_display\<lparr>width := 2, height := 1, env_width := 2, env_height := 1,
       scaler := Some \<lparr>sws_handle = 3, sws_built_for = small_params\<rparr>\<rparr>"

definition filled_img :: img_t where
  "filled_img =
     \<lparr>img_width = 2, img_height = 1, row_pitch = 8, pixel_pitch = 4, data = Some 100,
      frame_timestamp = Some 5000\<rparr>"

text \<open>Iterations of the loop at clock reading \<open>t\<close>: the consumer hands out
  \<open>backed_img\<close> at address 1 and the device has nothing ready; the consumer hands
  out a buffer with the given contents and a frame is decoded; the consumer refuses
  to hand out a buffer.\<close>

definition idle_tick :: "int \<Rightarrow> bool \<Rightarrow> iteration" where
  "idle_tick t accepted =
     \<lparr>now = t, pull_free_image = Some (1, backed_img), fill = empty_io,
      push_captured_image = accepted\<rparr>"

definition frame_tick :: "int \<Rightarrow> img_t \<Rightarrow> bool \<Rightarrow> iteration" where
  "frame_tick t img accepted =
     \<lparr>now = t, pull_free_image = Some (1, img), fill = small_frame_io,
      push_captured_image = accepted\<rparr>"

definition refused_tick :: "int \<Rightarrow> iteration" where
  "refused_tick t =
     \<lparr>now = t, pull_free_image = None, fill = empty_io, push_captured_image = True\<rparr>"

section \<open>Properties\<close>

subsection \<open>Frame rate and inter-frame delay\<close>

text \<open>
  C1 (as stated in the specification: with a frame rate of 0 or less the delay is
  1/30 second). It fails: \<open>init\<close> divides one second by \<open>max 1 framerate\<close>, so an
  unspecified frame rate gives a delay of one second, not of 33333333 ns.
\<close>

theorem init_delay_unspecified_counterexample:
  "framerate unspecified_cfg \<le> 0 \<and>
   delay (snd (init camera_lib unspecified_cfg (picamera_display_new DEFAULT_DEVICE)))
     \<noteq> 1000000000 div 30"
  by (simp add: init_def unspecified_cfg_def Let_def split: prod.splits option.splits)

text \<open>
  C1, amended: for every configuration whose frame rate is 0 or less, \<open>init\<close> sets the
  inter-frame delay to one second (the pacer behaves as if the frame rate were 1),
  whatever the library answers and whether or not \<open>init\<close> succeeds; with a positive
  frame rate the delay is one second divided by it. The delay of 1/30 second is the
  value the member has before \<open>init\<close> runs.
\<close>

theorem init_delay:
  "(framerate cfg \<le> 0 \<longrightarrow> delay (snd (init lib cfg d)) = 1000000000) \<and>
   (framerate cfg > 0 \<longrightarrow> delay (snd (init lib cfg d)) = 1000000000 div framerate cfg) \<and>
   delay (picamera_display_new dev) = 1000000000 div 30"
  by (simp add: init_def picamera_display_new_def Let_def max_def split: prod.splits option.splits)

theorem init_delay_witness:
  "framerate unspecified_cfg \<le> 0 \<and>
   delay (snd (init camera_lib unspecified_cfg (picamera_display_new DEFAULT_DEVICE))) = 1000000000 \<and>
   fst (init camera_lib unspecified_cfg (picamera_display_new DEFAULT_DEVICE))"
proof -
  have started: "fst (init camera_lib unspecified_cfg (picamera_display_new DEFAULT_DEVICE))"
    by (simp add: init_def format_open_def stream_def codec_open_def camera_lib_def
        picamera_display_new_def format_context_new_def Let_def)
  have unspecified: "framerate unspecified_cfg \<le> 0"
    by (simp add: unspecified_cfg_def)
  with init_delay [of unspecified_cfg camera_lib "picamera_display_new DEFAULT_DEVICE"] started
  show ?thesis by simp
qed

subsection \<open>Enumerating devices\<close>








subsection \<open>Opening the device\<close>

text \<open>
  C2 (as stated in the specification: whichever of its four steps fails, \<open>open\<close>
  leaves the device handle closed and the stream index at \<open>-1\<close>). It fails for the
  last two steps: when the stream-info probe fails after the device was opened, the
  handle (here 7) is still held; when no video stream is found, the handle is held
  and the stream index is the negative code that the search returned.
\<close>

theorem format_open_failure_counterexample:
  "\<not> fst (format_open probe_failing_lib DEFAULT_DEVICE unspecified_cfg format_context_new) \<and>
   ctx (snd (format_open probe_failing_lib DEFAULT_DEVICE unspecified_cfg format_context_new))
     = Some 7 \<and>
   \<not> fst (format_open streamless_lib DEFAULT_DEVICE unspecified_cfg format_context_new) \<and>
   ctx (snd (format_open streamless_lib DEFAULT_DEVICE unspecified_cfg format_context_new))
     = Some 7 \<and>
   stream_index (snd (format_open streamless_lib DEFAULT_DEVICE unspecified_cfg format_context_new))
     = - 1381258232"
  by (simp add: format_open_def probe_failing_lib_def streamless_lib_def camera_lib_def
      format_context_new_def Let_def)

text \<open>
  C2, amended: for every device path and configuration, \<open>open\<close> on a new session
  returns true exactly when all four steps succeed: when any of them fails (the
  input format is not found, or the device open, the stream-info probe or the
  video-stream search gives a negative result) it returns false, with a negative
  stream index, so that \<open>stream\<close> yields nothing. The device handle is held afterwards exactly when
  the failure came after the device was opened (at the stream-info probe or the
  video-stream search); when it came before (input format lookup, device open) the
  session is as new. In every case \<open>close\<close>, which the destructors call, then gives
  the closed session: no handle, stream index \<open>-1\<close>.
\<close>

theorem format_open_failure:
  "(fst (format_open lib dev cfg format_context_new) \<longleftrightarrow>
      av_find_input_format lib ''v4l2'' \<and>
      0 \<le> fst (avformat_open_input lib dev (open_options cfg)) \<and>
      0 \<le> avformat_find_stream_info lib (snd (avformat_open_input lib dev (open_options cfg))) \<and>
      0 \<le> av_find_best_stream lib (snd (avformat_open_input lib dev (open_options cfg)))) \<and>
   (\<not> fst (format_open lib dev cfg format_context_new) \<longrightarrow>
      stream_index (snd (format_open lib dev cfg format_context_new)) < 0 \<and>
      stream lib (snd (format_open lib dev cfg format_context_new)) = None \<and>
      (ctx (snd (format_open lib dev cfg format_context_new)) \<noteq> None \<longleftrightarrow>
         av_find_input_format lib ''v4l2'' \<and>
         0 \<le> fst (avformat_open_input lib dev (open_options cfg))) \<and>
      (ctx (snd (format_open lib dev cfg format_context_new)) = None \<longrightarrow>
         snd (format_open lib dev cfg format_context_new) = format_context_new) \<and>
      format_close (snd (format_open lib dev cfg format_context_new)) = format_context_new)"
  by (auto simp: format_open_def format_context_new_def stream_def format_close_def Let_def
      split: if_splits prod.splits option.splits)

theorem format_open_failure_witness:
  "format_open probe_failing_lib DEFAULT_DEVICE unspecified_cfg format_context_new
     = (False, \<lparr>ctx = Some 7, stream_index = - 1\<rparr>) \<and>
   stream probe_failing_lib \<lparr>ctx = Some 7, stream_index = - 1\<rparr> = None \<and>
   format_close \<lparr>ctx = Some 7, stream_index = - 1\<rparr> = format_context_new"
proof -
  have failed: "format_open probe_failing_lib DEFAULT_DEVICE unspecified_cfg format_context_new
     = (False, \<lparr>ctx = Some 7, stream_index = - 1\<rparr>)"
    by (simp add: format_open_def probe_failing_lib_def camera_lib_def format_context_new_def Let_def)
  from format_open_failure [of probe_failing_lib DEFAULT_DEVICE unspecified_cfg] failed
  show ?thesis by simp
qed

lemma format_open_success:
  assumes "format_open lib dev cfg f0 = (True, f)"
  shows "ctx f \<noteq> None \<and> 0 \<le> stream_index f"
  using assms
  by (auto simp: format_open_def Let_def split: if_splits prod.splits)

subsection \<open>Configuring the converter\<close>

lemma small_configure:
  "configure (\<lambda>p. Some 3) 2 1 0 2 1 None =
     (True, Some \<lparr>sws_handle = 3, sws_built_for = small_params\<rparr>, [SwsNew 3 small_params])"
  by (simp add: configure_def sws_getCachedContext_def small_params_def)

text \<open>
  C8: \<open>configure\<close> is idempotent. A second call with the same source width, height
  and format and the same destination width and height returns what the first call
  returned and leaves the held converter as the first call left it, without freeing
  or building anything. When the first call succeeded this holds whatever the
  converter factory would answer on the second call, since it is not asked.
\<close>

theorem configure_idempotent:
  assumes "configure create src_w src_h src_fmt dst_w dst_h s = (r, s', es)"
  shows "configure create src_w src_h src_fmt dst_w dst_h s' = (r, s', []) \<and>
         (r \<longrightarrow> configure create' src_w src_h src_fmt dst_w dst_h s' = (True, s', []))"
  using assms
  by (auto simp: configure_def sws_getCachedContext_def Let_def
      split: if_splits prod.splits option.splits)

theorem configure_idempotent_witness:
  "configure (\<lambda>p. Some 3) 2 1 0 2 1 None =
     (True, Some \<lparr>sws_handle = 3, sws_built_for = small_params\<rparr>, [SwsNew 3 small_params]) \<and>
   configure (\<lambda>p. None) 2 1 0 2 1 (Some \<lparr>sws_handle = 3, sws_built_for = small_params\<rparr>) =
     (True, Some \<lparr>sws_handle = 3, sws_built_for = small_params\<rparr>, [])"
  using configure_idempotent [OF small_configure, of "\<lambda>p. None"] small_configure by simp

subsection \<open>Filling a buffer\<close>

lemma opened_display_eq:
  "opened_display =
     \<lparr>device = DEFAULT_DEVICE, width = 1280, height = 720, env_width = 1280, env_height = 720,
      format = \<lparr>ctx = Some 7, stream_index = 0\<rparr>, codec = Some 9, scaler = None,
      delay = 1000000000\<rparr>"
  by (simp add: opened_display_def init_def format_open_def stream_def codec_open_def camera_lib_def
        picamera_display_new_def format_context_new_def unspecified_cfg_def Let_def)

text \<open>
  C10: a packet that was read successfully and whose stream index is not the one
  negotiated at \<open>open\<close> is released without being sent to the decoder (the actions
  are the read and the release, with no \<open>SendPacket\<close>), and \<open>read_frame\<close> returns
  \<open>timeout\<close>, leaving the capture object and the buffer as they were.
\<close>

theorem read_frame_other_stream:
  assumes "0 \<le> read_result io" and "packet_stream_index io \<noteq> stream_index (format d)"
  shows "read_frame io d img = (Status timeout, d, img, [AvReadFrame, PacketUnref])"
  using assms by (simp add: read_frame_def)

theorem read_frame_other_stream_witness:
  "0 \<le> read_result other_stream_io \<and>
   packet_stream_index other_stream_io \<noteq> stream_index (format opened_display) \<and>
   read_frame other_stream_io opened_display backed_img =
     (Status timeout, opened_display, backed_img, [AvReadFrame, PacketUnref])"
proof -
  have read: "0 \<le> read_result other_stream_io"
    by (simp add: other_stream_io_def small_frame_io_def)
  have other: "packet_stream_index other_stream_io \<noteq> stream_index (format opened_display)"
    by (simp add: other_stream_io_def small_frame_io_def opened_display_eq)
  from read_frame_other_stream [OF read other] read other show ?thesis by simp
qed

lemma allocation_events_configure:
  "configure create a b c e f s = (r, s', es) \<Longrightarrow> allocation_events es = []"
  by (auto simp: configure_def sws_getCachedContext_def allocation_events_def Let_def
      split: if_splits prod.splits option.splits)

lemma allocation_events_fit_buffer:
  "fit_buffer new fw fh img = (r, img1, es) \<Longrightarrow> allocation_events es = es"
  by (auto simp: fit_buffer_def allocation_events_def Let_def split: if_splits option.splits)

lemma fit_buffer_fitted:
  assumes "fit_buffer new fw fh img = (True, img1, es)"
  shows "row_pitch img1 = int32 (fw * 4) \<and> img_height img1 = fh \<and> data img1 \<noteq> None \<and>
         img_width img1 = img_width img \<and> pixel_pitch img1 = pixel_pitch img \<and>
         frame_timestamp img1 = frame_timestamp img \<and>
         (if data img = None \<or> row_pitch img \<noteq> int32 (fw * 4) \<or> img_height img \<noteq> fh
          then data img1 = new (alloc_size (int32 (fw * 4)) fh) \<and>
               es = (case data img of None \<Rightarrow> [] | Some old \<Rightarrow> [Delete old]) @
                    (case data img1 of None \<Rightarrow> [] | Some a \<Rightarrow> [New a (alloc_size (int32 (fw * 4)) fh)])
          else img1 = img \<and> es = [])"
  using assms
  by (auto simp: fit_buffer_def Let_def split: if_splits option.splits)

lemma store_frame_ok:
  assumes "store_frame io d img = (Status ok, d', img', es)"
  shows "\<exists>s es1 img1 es2.
           configure (sws_getContext io) (frame_width io) (frame_height io) (frame_format io)
             (frame_width io) (frame_height io) (scaler d) = (True, s, es1) \<and>
           fit_buffer (operator_new io) (frame_width io) (frame_height io) img = (True, img1, es2) \<and>
           img' = img1\<lparr>img_width := frame_width io, img_height := frame_height io, pixel_pitch := 4,
                       frame_timestamp := Some (steady_now io)\<rparr> \<and>
           es = es1 @ es2 @ [SwsScale]"
  using assms
  by (auto simp: store_frame_def Let_def split: if_splits prod.splits)

lemma read_frame_ok:
  assumes "read_frame io d img = (Status ok, d', img', es)"
  shows "\<exists>es'. store_frame io d img = (Status ok, d', img', es') \<and>
           es = [AvReadFrame, SendPacket, PacketUnref, ReceiveFrame] @ es'"
  using assms
  by (auto simp: read_frame_def Let_def split: if_splits prod.splits)

lemma read_frame_ok_buffer:
  assumes "read_frame io d img = (Status ok, d', img', es)"
  shows "row_pitch img' = int32 (frame_width io * 4) \<and> img_height img' = frame_height io \<and>
      img_width img' = frame_width io \<and> pixel_pitch img' = 4 \<and> data img' \<noteq> None \<and>
      (if data img = None \<or> row_pitch img \<noteq> int32 (frame_width io * 4) \<or> img_height img \<noteq> frame_height io
       then data img' = operator_new io (alloc_size (int32 (frame_width io * 4)) (frame_height io)) \<and>
            allocation_events es =
              (case data img of None \<Rightarrow> [] | Some old \<Rightarrow> [Delete old]) @
              (case data img' of None \<Rightarrow> []
               | Some a \<Rightarrow> [New a (alloc_size (int32 (frame_width io * 4)) (frame_height io))])
       else data img' = data img \<and> allocation_events es = [])"
proof -
  from read_frame_ok [OF assms] obtain es' where
    stored: "store_frame io d img = (Status ok, d', img', es')" and
    es: "es = [AvReadFrame, SendPacket, PacketUnref, ReceiveFrame] @ es'"
    by blast
  from store_frame_ok [OF stored] obtain s es1 img1 es2 where
    conf: "configure (sws_getContext io) (frame_width io) (frame_height io) (frame_format io)
             (frame_width io) (frame_height io) (scaler d) = (True, s, es1)" and
    fit: "fit_buffer (operator_new io) (frame_width io) (frame_height io) img = (True, img1, es2)" and
    img': "img' = img1\<lparr>img_width := frame_width io, img_height := frame_height io, pixel_pitch := 4,
                 frame_timestamp := Some (steady_now io)\<rparr>" and
    es': "es' = es1 @ es2 @ [SwsScale]"
    by (elim exE conjE)
  have "allocation_events es1 = []"
    using allocation_events_configure [OF conf] .
  moreover have "allocation_events es2 = es2"
    using allocation_events_fit_buffer [OF fit] .
  ultimately have events: "allocation_events es = es2"
    by (simp add: es es' allocation_events_def)
  have fields: "row_pitch img' = row_pitch img1" "data img' = data img1"
    "img_height img' = frame_height io" "img_width img' = frame_width io" "pixel_pitch img' = 4"
    by (simp_all add: img')
  note fitted = fit_buffer_fitted [OF fit]
  show ?thesis
  proof (cases "data img = None \<or> row_pitch img \<noteq> int32 (frame_width io * 4) \<or> img_height img \<noteq> frame_height io")
    case True
    with fitted have
      "data img1 = operator_new io (alloc_size (int32 (frame_width io * 4)) (frame_height io))"
      "es2 = (case data img of None \<Rightarrow> [] | Some old \<Rightarrow> [Delete old]) @
             (case data img1 of None \<Rightarrow> []
              | Some a \<Rightarrow> [New a (alloc_size (int32 (frame_width io * 4)) (frame_height io))])"
      by (simp_all only: if_True)
    moreover from fitted have "row_pitch img1 = int32 (frame_width io * 4)" "data img1 \<noteq> None"
      by blast+
    ultimately show ?thesis
      unfolding events fields using True by (simp only: if_True simp_thms)
  next
    case False
    with fitted have "img1 = img" "es2 = []"
      by (simp_all only: if_False)
    moreover from fitted have "row_pitch img1 = int32 (frame_width io * 4)" "data img1 \<noteq> None"
      by blast+
    ultimately show ?thesis
      unfolding events fields using False by (simp only: if_False simp_thms)
  qed
qed

lemma int32_exact: "- (2 ^ 31) \<le> x \<Longrightarrow> x < 2 ^ 31 \<Longrightarrow> int32 x = x"
  by (simp add: int32_def)

lemma int32_small: "int32 8 = 8"
  by (simp add: int32_def)

lemma int32_wide: "int32 4294967296 = 0"
  by (simp add: int32_def)

lemma alloc_size_small: "alloc_size 8 1 = 8"
  by (simp add: alloc_size_def)

lemma alloc_size_wide: "alloc_size 0 1 = 0"
  by (simp add: alloc_size_def)

lemma small_fill_unbacked:
  "read_frame small_frame_io opened_display unbacked_img =
     (Status ok, small_display, filled_img,
      [AvReadFrame, SendPacket, PacketUnref, ReceiveFrame, SwsNew 3 small_params, New 100 8, SwsScale])"
  by (simp add: read_frame_def store_frame_def small_configure fit_buffer_def
      small_frame_io_def opened_display_eq unbacked_img_def picamera_frame_new_def
      int32_small alloc_size_small small_display_def filled_img_def AVERROR_EAGAIN_def)

lemma small_fill_backed:
  "read_frame small_frame_io opened_display backed_img =
     (Status ok, small_display, filled_img,
      [AvReadFrame, SendPacket, PacketUnref, ReceiveFrame, SwsNew 3 small_params,
       Delete 50, New 100 8, SwsScale])"
  by (simp add: read_frame_def store_frame_def small_configure fit_buffer_def
      small_frame_io_def opened_display_eq backed_img_def picamera_frame_new_def
      int32_small alloc_size_small small_display_def filled_img_def AVERROR_EAGAIN_def)

lemma small_refill:
  "read_frame small_frame_io small_display filled_img =
     (Status ok, small_display, filled_img,
      [AvReadFrame, SendPacket, PacketUnref, ReceiveFrame, SwsScale])"
  by (simp add: read_frame_def store_frame_def configure_def sws_getCachedContext_def fit_buffer_def
      small_frame_io_def opened_display_eq small_params_def int32_small
      small_display_def filled_img_def AVERROR_EAGAIN_def)

lemma wide_fill:
  "fst (read_frame wide_frame_io opened_display backed_img) = Status ok \<and>
   fst (snd (snd (read_frame wide_frame_io opened_display backed_img))) = wide_filled_img"
  by (simp add: read_frame_def store_frame_def configure_def sws_getCachedContext_def fit_buffer_def
      wide_frame_io_def small_frame_io_def opened_display_eq backed_img_def picamera_frame_new_def
      int32_wide alloc_size_wide wide_filled_img_def AVERROR_EAGAIN_def)

text \<open>
  C4 (as stated in the specification: after a successful fill \<open>row_pitch\<close> is
  \<open>width * 4\<close>, and the pixel storage has been replaced exactly when the buffer's
  stored dimensions differ from the decoded frame's). It fails in two ways. For a
  buffer without pixel storage: the first buffer below has the width (2), height
  (1) and row pitch (8) of the decoded 2x1 frame, and the fill still allocates
  storage for it. And where the 32-bit product wraps: for a frame 1073741824 pixels
  wide the fill succeeds and stores the row pitch 0.
\<close>

theorem read_frame_buffer_counterexample:
  "read_frame small_frame_io opened_display unbacked_img =
     (Status ok, small_display, filled_img,
      [AvReadFrame, SendPacket, PacketUnref, ReceiveFrame, SwsNew 3 small_params, New 100 8, SwsScale]) \<and>
   img_width unbacked_img = frame_width small_frame_io \<and>
   img_height unbacked_img = frame_height small_frame_io \<and>
   row_pitch unbacked_img = frame_width small_frame_io * 4 \<and>
   data unbacked_img = None \<and>
   allocation_events
     [AvReadFrame, SendPacket, PacketUnref, ReceiveFrame, SwsNew 3 small_params, New 100 8, SwsScale]
     = [New 100 8] \<and>
   fst (read_frame wide_frame_io opened_display backed_img) = Status ok \<and>
   fst (snd (snd (read_frame wide_frame_io opened_display backed_img))) = wide_filled_img \<and>
   row_pitch wide_filled_img \<noteq> img_width wide_filled_img * 4"
  using small_fill_unbacked wide_fill
  by (simp add: unbacked_img_def picamera_frame_new_def small_frame_io_def allocation_events_def
      wide_filled_img_def)

text \<open>
  C4, amended: for every successful fill (\<open>read_frame\<close> returning \<open>ok\<close>) the buffer
  produced has \<open>pixel_pitch = 4\<close>, the decoded frame's width and height, pixel
  storage, and as \<open>row_pitch\<close> the 32-bit product \<open>width * 4\<close>, which is \<open>width * 4\<close>
  whenever that fits a 32-bit int (a width from \<open>-2^29\<close> to below \<open>2^29\<close>). Its
  storage is replaced (the old allocation, if there is one, freed once, and a new
  one of \<open>row_pitch * height\<close> bytes taken) exactly when the buffer has no pixel
  storage or its stored row pitch or height differ from that product or from the
  decoded frame's height; otherwise the storage is kept and nothing is allocated or
  freed. A further successful fill of the produced buffer with a frame of the same
  width and height keeps the allocation.
\<close>

theorem read_frame_buffer:
  assumes "read_frame io d img = (Status ok, d', img', es)"
  shows "row_pitch img' = int32 (img_width img' * 4) \<and>
         (- (2 ^ 29) \<le> frame_width io \<and> frame_width io < 2 ^ 29 \<longrightarrow>
            row_pitch img' = img_width img' * 4) \<and>
         pixel_pitch img' = 4 \<and>
         img_width img' = frame_width io \<and> img_height img' = frame_height io \<and>
         data img' \<noteq> None \<and>
         (if data img = None \<or> row_pitch img \<noteq> int32 (frame_width io * 4) \<or>
             img_height img \<noteq> frame_height io
          then data img' =
                 operator_new io (alloc_size (int32 (frame_width io * 4)) (frame_height io)) \<and>
               allocation_events es =
                 (case data img of None \<Rightarrow> [] | Some old \<Rightarrow> [Delete old]) @
                 (case data img' of None \<Rightarrow> []
                  | Some a \<Rightarrow> [New a (alloc_size (int32 (frame_width io * 4)) (frame_height io))])
          else data img' = data img \<and> allocation_events es = []) \<and>
         (\<forall>io2 d2 d2' img2 es2.
            read_frame io2 d2 img' = (Status ok, d2', img2, es2) \<and>
            frame_width io2 = frame_width io \<and> frame_height io2 = frame_height io
            \<longrightarrow> data img2 = data img' \<and> allocation_events es2 = [])"
proof -
  note first = read_frame_ok_buffer [OF assms]
  have again: "data img2 = data img' \<and> allocation_events es2 = []"
    if "read_frame io2 d2 img' = (Status ok, d2', img2, es2)"
      and "frame_width io2 = frame_width io" and "frame_height io2 = frame_height io"
    for io2 d2 d2' img2 es2
    using read_frame_ok_buffer [OF that(1)] first that(2,3) by simp
  have pitch: "row_pitch img' = int32 (img_width img' * 4)"
    using first by simp
  have exact: "- (2 ^ 29) \<le> frame_width io \<and> frame_width io < 2 ^ 29 \<longrightarrow>
            row_pitch img' = img_width img' * 4"
  proof
    assume "- (2 ^ 29) \<le> frame_width io \<and> frame_width io < 2 ^ 29"
    then have "- (2 ^ 31) \<le> frame_width io * 4" "frame_width io * 4 < 2 ^ 31"
      by simp_all
    from int32_exact [OF this] first show "row_pitch img' = img_width img' * 4"
      by simp
  qed
  have reuse: "\<forall>io2 d2 d2' img2 es2.
            read_frame io2 d2 img' = (Status ok, d2', img2, es2) \<and>
            frame_width io2 = frame_width io \<and> frame_height io2 = frame_height io
            \<longrightarrow> data img2 = data img' \<and> allocation_events es2 = []"
    using again by blast
  from first have rest: "pixel_pitch img' = 4" "img_width img' = frame_width io"
    "img_height img' = frame_height io" "data img' \<noteq> None"
    "if data img = None \<or> row_pitch img \<noteq> int32 (frame_width io * 4) \<or>
             img_height img \<noteq> frame_height io
          then data img' =
                 operator_new io (alloc_size (int32 (frame_width io * 4)) (frame_height io)) \<and>
               allocation_events es =
                 (case data img of None \<Rightarrow> [] | Some old \<Rightarrow> [Delete old]) @
                 (case data img' of None \<Rightarrow> []
                  | Some a \<Rightarrow> [New a (alloc_size (int32 (frame_width io * 4)) (frame_height io))])
          else data img' = data img \<and> allocation_events es = []"
    by blast+
  show ?thesis
    by (intro conjI pitch exact rest reuse)
qed

theorem read_frame_buffer_witness:
  "read_frame small_frame_io opened_display backed_img =
     (Status ok, small_display, filled_img,
      [AvReadFrame, SendPacket, PacketUnref, ReceiveFrame, SwsNew 3 small_params,
       Delete 50, New 100 8, SwsScale]) \<and>
   - (2 ^ 29) \<le> frame_width small_frame_io \<and> frame_width small_frame_io < 2 ^ 29 \<and>
   row_pitch filled_img = img_width filled_img * 4 \<and> pixel_pitch filled_img = 4 \<and>
   allocation_events
     [AvReadFrame, SendPacket, PacketUnref, ReceiveFrame, SwsNew 3 small_params,
      Delete 50, New 100 8, SwsScale] = [Delete 50, New 100 8] \<and>
   read_frame small_frame_io small_display filled_img =
     (Status ok, small_display, filled_img,
      [AvReadFrame, SendPacket, PacketUnref, ReceiveFrame, SwsScale]) \<and>
   allocation_events [AvReadFrame, SendPacket, PacketUnref, ReceiveFrame, SwsScale] = []"
proof -
  note fill = read_frame_buffer [OF small_fill_backed]
  have bounds: "- (2 ^ 29) \<le> frame_width small_frame_io \<and> frame_width small_frame_io < 2 ^ 29"
    by (simp add: small_frame_io_def)
  from fill have "- (2 ^ 29) \<le> frame_width small_frame_io \<and> frame_width small_frame_io < 2 ^ 29 \<longrightarrow>
            row_pitch filled_img = img_width filled_img * 4"
    and "pixel_pitch filled_img = 4"
    by blast+
  with bounds have pitches: "row_pitch filled_img = img_width filled_img * 4" "pixel_pitch filled_img = 4"
    by blast+
  from fill have
    "if data backed_img = None \<or> row_pitch backed_img \<noteq> int32 (frame_width small_frame_io * 4) \<or>
        img_height backed_img \<noteq> frame_height small_frame_io
     then data filled_img =
            operator_new small_frame_io
              (alloc_size (int32 (frame_width small_frame_io * 4)) (frame_height small_frame_io)) \<and>
          allocation_events
            [AvReadFrame, SendPacket, PacketUnref, ReceiveFrame, SwsNew 3 small_params,
             Delete 50, New 100 8, SwsScale] =
            (case data backed_img of None \<Rightarrow> [] | Some old \<Rightarrow> [Delete old]) @
            (case data filled_img of None \<Rightarrow> []
             | Some a \<Rightarrow>
                 [New a (alloc_size (int32 (frame_width small_frame_io * 4))
                           (frame_height small_frame_io))])
     else data filled_img = data backed_img \<and>
          allocation_events
            [AvReadFrame, SendPacket, PacketUnref, ReceiveFrame, SwsNew 3 small_params,
             Delete 50, New 100 8, SwsScale] = []"
    by blast
  then have "allocation_events
     [AvReadFrame, SendPacket, PacketUnref, ReceiveFrame, SwsNew 3 small_params,
      Delete 50, New 100 8, SwsScale] = [Delete 50, New 100 8]"
    by (simp add: backed_img_def picamera_frame_new_def small_frame_io_def filled_img_def
        int32_small alloc_size_small)
  moreover from fill small_refill
  have "allocation_events [AvReadFrame, SendPacket, PacketUnref, ReceiveFrame, SwsScale] = []"
    by blast
  ultimately show ?thesis
    using small_fill_backed small_refill pitches bounds by simp
qed

subsection \<open>The fill as seen by the loop\<close>

lemma store_frame_not_timeout:
  "store_frame io d img = (st, d', img', es) \<Longrightarrow> st \<noteq> Status timeout"
  by (auto simp: store_frame_def Let_def split: if_splits prod.splits)

lemma read_frame_timeout:
  assumes "read_frame io d img = (Status timeout, d', img', es)"
  shows "d' = d \<and> img' = img \<and> pushes es = []"
  using assms store_frame_not_timeout [of io d img]
  by (auto simp: read_frame_def Let_def pushes_def split: if_splits prod.splits)

lemma pushes_store_frame:
  "store_frame io d img = (st, d', img', es) \<Longrightarrow> pushes es = []"
  by (auto simp: store_frame_def configure_def sws_getCachedContext_def fit_buffer_def Let_def
      pushes_def split: if_splits prod.splits option.splits)

lemma pushes_read_frame:
  "read_frame io d img = (st, d', img', es) \<Longrightarrow> pushes es = []"
  using pushes_store_frame [of io d img]
  by (auto simp: read_frame_def Let_def pushes_def split: if_splits prod.splits)

lemma delay_store_frame:
  "store_frame io d img = (st, d', img', es) \<Longrightarrow> delay d' = delay d \<and> format d' = format d"
  by (auto simp: store_frame_def Let_def split: if_splits prod.splits)

lemma delay_read_frame:
  "read_frame io d img = (st, d', img', es) \<Longrightarrow> delay d' = delay d \<and> format d' = format d"
  using delay_store_frame [of io d img]
  by (auto simp: read_frame_def Let_def split: if_splits prod.splits)

lemma empty_io_timeout:
  "read_frame empty_io d img = (Status timeout, d, img, [AvReadFrame])"
  by (simp add: read_frame_def empty_io_def AVERROR_EAGAIN_def)

subsection \<open>One iteration\<close>

lemma pushes_pace: "pushes (snd (pace dl nf nw)) = []"
  by (simp add: pace_def pushes_def Let_def)

lemma pushes_append: "pushes (xs @ ys) = pushes xs @ pushes ys"
  by (simp add: pushes_def)

lemma pace_not_in_past:
  "0 \<le> dl \<Longrightarrow> nw \<le> fst (pace dl nf nw)"
  by (simp add: pace_def Let_def)

lemma capture_iter_refused:
  assumes "pull_free_image it = None"
  shows "capture_iter d nf it =
           (Some (Returned interrupted), d, fst (pace (delay d) nf (now it)),
            snd (pace (delay d) nf (now it)) @ [PullRefused])"
  using assms by (simp add: capture_iter_def split: prod.splits)

lemma capture_iter_pushed:
  assumes "pull_free_image it = Some (p, img)"
    and "read_frame (fill it) d img = (Status st, d1, img1, es1)"
    and "st = ok \<or> st = timeout"
  shows "capture_iter d nf it =
           (if push_captured_image it then None else Some (Returned ok), d1,
            fst (pace (delay d) nf (now it)),
            snd (pace (delay d) nf (now it)) @ [Pull p] @ es1 @
              [Push p img1 (st = ok) (push_captured_image it)])"
  using assms by (auto simp: capture_iter_def split: prod.splits)

lemma capture_iter_next_frame:
  "capture_iter d nf it = (r, d', nf', es) \<Longrightarrow> nf' = fst (pace (delay d) nf (now it))"
  by (auto simp: capture_iter_def Let_def
      split: prod.splits option.splits fill_result.splits if_splits)

lemma capture_iter_delay:
  "capture_iter d nf it = (r, d', nf', es) \<Longrightarrow> delay d' = delay d"
  by (auto simp: capture_iter_def Let_def dest: delay_read_frame
      split: prod.splits option.splits fill_result.splits if_splits)

subsection \<open>Runs of the loop\<close>

lemma capture_loop_delay:
  "capture_loop d nf its = (r, d', nf', es) \<Longrightarrow> delay d' = delay d"
proof (induction its arbitrary: d nf r d' nf' es)
  case Nil
  then show ?case by simp
next
  case (Cons it its)
  obtain r1 d1 nf1 es1 where iter: "capture_iter d nf it = (r1, d1, nf1, es1)"
    by (cases "capture_iter d nf it") auto
  show ?case
  proof (cases r1)
    case None
    obtain r2 d2 nf2 es2 where rest: "capture_loop d1 nf1 its = (r2, d2, nf2, es2)"
      by (cases "capture_loop d1 nf1 its") auto
    from Cons.prems iter None rest have "d' = d2" by simp
    with Cons.IH [OF rest] capture_iter_delay [OF iter] show ?thesis by simp
  next
    case (Some res)
    with Cons.prems iter have "d' = d1" by simp
    with capture_iter_delay [OF iter] show ?thesis by simp
  qed
qed

text \<open>A run that is still going after \<open>pre\<close> continues with the iterations that follow.\<close>

lemma capture_loop_append:
  assumes "capture_loop d nf pre = (None, d1, nf1, es1)"
  shows "capture_loop d nf (pre @ rest) =
           (case capture_loop d1 nf1 rest of (r, d2, nf2, es2) \<Rightarrow> (r, d2, nf2, es1 @ es2))"
  using assms
proof (induction pre arbitrary: d nf es1)
  case Nil
  then show ?case by (simp split: prod.splits)
next
  case (Cons it pre)
  obtain r0 d0 nf0 es0 where iter: "capture_iter d nf it = (r0, d0, nf0, es0)"
    by (cases "capture_iter d nf it") auto
  show ?case
  proof (cases r0)
    case None
    obtain r2 d2 nf2 es2 where mid: "capture_loop d0 nf0 pre = (r2, d2, nf2, es2)"
      by (cases "capture_loop d0 nf0 pre") auto
    from Cons.prems iter None mid have "r2 = None" "d2 = d1" "nf2 = nf1" "es1 = es0 @ es2"
      by simp_all
    with mid have mid': "capture_loop d0 nf0 pre = (None, d1, nf1, es2)" by simp
    from Cons.IH [OF mid'] iter None \<open>es1 = es0 @ es2\<close> show ?thesis
      by (simp split: prod.splits)
  next
    case (Some res)
    with Cons.prems iter show ?thesis by simp
  qed
qed

lemma capture_loop_paced:
  assumes "capture_loop d nf its = (None, d', nf', es)" and "its \<noteq> []" and "0 \<le> delay d"
  shows "now (last its) \<le> nf'"
  using assms
proof (induction its arbitrary: d nf es)
  case Nil
  then show ?case by simp
next
  case (Cons it its)
  obtain r0 d0 nf0 es0 where iter: "capture_iter d nf it = (r0, d0, nf0, es0)"
    by (cases "capture_iter d nf it") auto
  obtain r2 d2 nf2 es2 where rest: "capture_loop d0 nf0 its = (r2, d2, nf2, es2)"
    by (cases "capture_loop d0 nf0 its") auto
  from Cons.prems(1) iter rest have r0: "r0 = None"
    by (cases r0) simp_all
  with Cons.prems(1) iter rest have eqs: "r2 = None" "d2 = d'" "nf2 = nf'" by simp_all
  show ?case
  proof (cases "its = []")
    case True
    with rest eqs have "nf' = nf0" by simp
    with capture_iter_next_frame [OF iter] pace_not_in_past [OF Cons.prems(3)] True
    show ?thesis by simp
  next
    case False
    from capture_iter_delay [OF iter] Cons.prems(3) have "0 \<le> delay d0" by simp
    from Cons.IH [OF _ False this] rest eqs have "now (last its) \<le> nf'" by simp
    with False show ?thesis by simp
  qed
qed

text \<open>\<open>init\<close> never leaves a negative delay.\<close>

lemma init_sets_delay:
  "delay (snd (init lib cfg d)) = 1000000000 div max 1 (framerate cfg)"
  by (simp add: init_def Let_def split: prod.splits option.splits)

lemma init_nonneg_delay: "0 \<le> delay (snd (init lib cfg d))"
  unfolding init_sets_delay by (simp add: pos_imp_zdiv_nonneg_iff)

subsection \<open>Runs on the example inputs\<close>

lemma delay_opened_display: "delay opened_display = 1000000000"
  by (simp add: opened_display_eq)

lemma delay_small_display: "delay small_display = 1000000000"
  by (simp add: small_display_def opened_display_eq)

lemma first_idle_tick:
  "capture opened_display 0 [idle_tick 0 True] =
     (None, opened_display, 1000000000, [Pull 1, AvReadFrame, Push 1 backed_img False True])"
  by (simp add: capture_def capture_iter_def pace_def idle_tick_def empty_io_timeout
      delay_opened_display)

lemma late_idle_tick:
  "capture_iter opened_display 1000000000 (idle_tick 5000000000 True) =
     (None, opened_display, 6000000000, [Pull 1, AvReadFrame, Push 1 backed_img False True])"
  by (simp add: capture_iter_def pace_def idle_tick_def empty_io_timeout delay_opened_display)

lemma first_frame_tick:
  "capture opened_display 0 [frame_tick 0 backed_img True] =
     (None, small_display, 1000000000,
      [Pull 1, AvReadFrame, SendPacket, PacketUnref, ReceiveFrame, SwsNew 3 small_params,
       Delete 50, New 100 8, SwsScale, Push 1 filled_img True True])"
  by (simp add: capture_def capture_iter_def pace_def frame_tick_def small_fill_backed
      delay_opened_display)

subsection \<open>Pacing\<close>

text \<open>
  C3: in every iteration of the running loop the next scheduled tick is advanced by
  the fixed delay and, if that is still before the iteration's \<open>now\<close>, reset to
  \<open>now + delay\<close>. Hence, with the non-negative delay that \<open>init\<close> sets, the tick
  scheduled after an iteration is never before that iteration's \<open>now\<close>, on whichever
  path the iteration ends, and this holds at the head of every later iteration for
  the iteration before it: the tick being served is the only one that can lie in
  the past.
\<close>

theorem pace_resynchronises:
  assumes "capture d start its = (None, d1, nf1, es1)"
    and "capture_iter d1 nf1 it = (r, d2, nf2, es2)"
    and "0 \<le> delay d"
  shows "nf2 = (if nf1 + delay d < now it then now it + delay d else nf1 + delay d) \<and>
         now it \<le> nf2 \<and>
         (its \<noteq> [] \<longrightarrow> now (last its) \<le> nf1)"
proof -
  have running: "capture_loop d start its = (None, d1, nf1, es1)"
    using assms(1) by (simp add: capture_def)
  have same: "delay d1 = delay d"
    using capture_loop_delay [OF running] .
  have "nf2 = fst (pace (delay d) nf1 (now it))"
    using capture_iter_next_frame [OF assms(2)] same by simp
  moreover have "now it \<le> fst (pace (delay d) nf1 (now it))"
    using pace_not_in_past [OF assms(3)] .
  moreover have "its \<noteq> [] \<longrightarrow> now (last its) \<le> nf1"
    using capture_loop_paced [OF running _ assms(3)] by blast
  ultimately show ?thesis by (simp add: pace_def Let_def)
qed

theorem pace_resynchronises_witness:
  "capture opened_display 0 [idle_tick 0 True] =
     (None, opened_display, 1000000000, [Pull 1, AvReadFrame, Push 1 backed_img False True]) \<and>
   capture_iter opened_display 1000000000 (idle_tick 5000000000 True) =
     (None, opened_display, 6000000000, [Pull 1, AvReadFrame, Push 1 backed_img False True]) \<and>
   0 \<le> delay opened_display \<and>
   1000000000 + delay opened_display < now (idle_tick 5000000000 True) \<and>
   6000000000 = now (idle_tick 5000000000 True) + delay opened_display \<and>
   now (last [idle_tick 0 True]) \<le> 1000000000"
proof -
  have nonneg: "0 \<le> delay opened_display"
    by (simp add: delay_opened_display)
  from pace_resynchronises [OF first_idle_tick late_idle_tick nonneg]
  have "6000000000 = (if 1000000000 + delay opened_display < now (idle_tick 5000000000 True)
                      then now (idle_tick 5000000000 True) + delay opened_display
                      else 1000000000 + delay opened_display)"
    and "now (last [idle_tick 0 True]) \<le> 1000000000"
    by simp_all
  moreover have "1000000000 + delay opened_display < now (idle_tick 5000000000 True)"
    by (simp add: delay_opened_display idle_tick_def)
  ultimately show ?thesis
    using first_idle_tick late_idle_tick nonneg by simp
qed

subsection \<open>Refusal of a buffer\<close>

text \<open>
  C7: when \<open>pull_free_image_cb\<close> refuses to supply a buffer in an iteration of the
  running loop, \<open>capture\<close> returns \<open>interrupted\<close> in that iteration. Besides the
  paced sleep the iteration performs nothing but the refused pull: no library call
  of the fill and no push; the capture object is as the iterations before left it.
\<close>

theorem pull_refused_interrupts:
  assumes "capture d start pre = (None, d1, nf1, es1)"
    and "pull_free_image it = None"
  shows "capture d start (pre @ it # post) =
           (Some (Returned interrupted), d1,
            fst (pace (delay d1) nf1 (now it)),
            es1 @ (if nf1 > now it then [Sleep (nf1 - now it)] else []) @ [PullRefused])"
proof -
  have "capture_loop d1 nf1 (it # post) =
          (Some (Returned interrupted), d1, fst (pace (delay d1) nf1 (now it)),
           snd (pace (delay d1) nf1 (now it)) @ [PullRefused])"
    using capture_iter_refused [OF assms(2)] by simp
  moreover have "capture_loop d start pre = (None, d1, nf1, es1)"
    using assms(1) by (simp add: capture_def)
  from capture_loop_append [OF this, of "it # post"]
  have "capture d start (pre @ it # post) =
          (case capture_loop d1 nf1 (it # post) of (r, d2, nf2, es2) \<Rightarrow> (r, d2, nf2, es1 @ es2))"
    by (simp add: capture_def)
  ultimately show ?thesis
    by (simp add: pace_def Let_def)
qed

theorem pull_refused_interrupts_witness:
  "capture opened_display 0 [idle_tick 0 True] =
     (None, opened_display, 1000000000, [Pull 1, AvReadFrame, Push 1 backed_img False True]) \<and>
   pull_free_image (refused_tick 400000000) = None \<and>
   capture opened_display 0 [idle_tick 0 True, refused_tick 400000000, frame_tick 0 backed_img True] =
     (Some (Returned interrupted), opened_display, 2000000000,
      [Pull 1, AvReadFrame, Push 1 backed_img False True, Sleep 600000000, PullRefused])"
proof -
  have refused: "pull_free_image (refused_tick 400000000) = None"
    by (simp add: refused_tick_def)
  from pull_refused_interrupts [OF first_idle_tick refused, of "[frame_tick 0 backed_img True]"]
  have "capture opened_display 0
          [idle_tick 0 True, refused_tick 400000000, frame_tick 0 backed_img True] =
     (Some (Returned interrupted), opened_display, 2000000000,
      [Pull 1, AvReadFrame, Push 1 backed_img False True, Sleep 600000000, PullRefused])"
    by (simp add: pace_def refused_tick_def delay_opened_display)
  with first_idle_tick refused show ?thesis by simp
qed

subsection \<open>Ticks without a frame\<close>

lemma capture_loop_timeouts:
  assumes "\<forall>it \<in> set its. push_captured_image it \<and>
             (\<exists>p img. pull_free_image it = Some (p, img) \<and>
                fst (read_frame (fill it) d img) = Status timeout)"
  shows "\<exists>nf es. capture_loop d next_frame its = (None, d, nf, es) \<and>
           pushes es = concat (map repeat_push its)"
  using assms
proof (induction its arbitrary: next_frame)
  case Nil
  then show ?case by (simp add: pushes_def)
next
  case (Cons it its)
  from Cons.prems obtain p img where
    accepted: "push_captured_image it" and
    pulled: "pull_free_image it = Some (p, img)" and
    status: "fst (read_frame (fill it) d img) = Status timeout"
    by auto
  obtain d' img' es1 where fill: "read_frame (fill it) d img = (Status timeout, d', img', es1)"
    using status by (cases "read_frame (fill it) d img") auto
  from read_frame_timeout [OF fill] have unchanged: "d' = d" "img' = img" "pushes es1 = []"
    by simp_all
  let ?nf = "fst (pace (delay d) next_frame (now it))"
  let ?es0 = "snd (pace (delay d) next_frame (now it)) @ [Pull p] @ es1 @ [Push p img False True]"
  have iter: "capture_iter d next_frame it = (None, d, ?nf, ?es0)"
    using capture_iter_pushed [OF pulled fill, of next_frame] accepted unchanged by simp
  from Cons.prems have "\<forall>it \<in> set its. push_captured_image it \<and>
             (\<exists>p img. pull_free_image it = Some (p, img) \<and>
                fst (read_frame (fill it) d img) = Status timeout)"
    by simp
  from Cons.IH [OF this, of ?nf] obtain nf es where
    rest: "capture_loop d ?nf its = (None, d, nf, es)" and
    repeats: "pushes es = concat (map repeat_push its)"
    by blast
  have "capture_loop d next_frame (it # its) = (None, d, nf, ?es0 @ es)"
    using iter rest by simp
  moreover have "pushes ?es0 = [Push p img False True]"
    using unchanged(3) by (simp add: pushes_append pushes_pace) (simp add: pushes_def)
  then have "pushes (?es0 @ es) = concat (map repeat_push (it # its))"
    using repeats pulled by (simp only: pushes_append) (simp add: repeat_push_def)
  ultimately show ?case by blast
qed

text \<open>
  C5: in an iteration whose fill reports \<open>timeout\<close> the buffer that was pulled is
  pushed, unchanged, with \<open>is_new = false\<close>, and when the consumer accepts it the
  loop goes on. So after any number of consecutive iterations of the running loop
  in which the fill reports \<open>timeout\<close> and the consumer accepts the repeat, the
  loop is still running, the capture object is unchanged, and the pushes made in
  them are exactly one repeat of each pulled buffer, in order.
\<close>

theorem timeout_repeats_buffer:
  assumes "capture d start pre = (None, d1, nf1, es1)"
    and "\<forall>it \<in> set its. push_captured_image it \<and>
             (\<exists>p img. pull_free_image it = Some (p, img) \<and>
                fst (read_frame (fill it) d1 img) = Status timeout)"
  shows "\<exists>nf es. capture d start (pre @ its) = (None, d1, nf, es) \<and>
           pushes es = pushes es1 @ concat (map repeat_push its)"
proof -
  from capture_loop_timeouts [OF assms(2), of nf1] obtain nf es2 where
    rest: "capture_loop d1 nf1 its = (None, d1, nf, es2)" and
    repeats: "pushes es2 = concat (map repeat_push its)"
    by blast
  have "capture_loop d start pre = (None, d1, nf1, es1)"
    using assms(1) by (simp add: capture_def)
  from capture_loop_append [OF this, of its] rest
  have "capture d start (pre @ its) = (None, d1, nf, es1 @ es2)"
    by (simp add: capture_def)
  moreover have "pushes (es1 @ es2) = pushes es1 @ concat (map repeat_push its)"
    using repeats by (simp add: pushes_append)
  ultimately show ?thesis by blast
qed

theorem timeout_repeats_buffer_witness:
  "capture opened_display 0 [frame_tick 0 backed_img True] =
     (None, small_display, 1000000000,
      [Pull 1, AvReadFrame, SendPacket, PacketUnref, ReceiveFrame, SwsNew 3 small_params,
       Delete 50, New 100 8, SwsScale, Push 1 filled_img True True]) \<and>
   (\<exists>nf es.
      capture opened_display 0
        [frame_tick 0 backed_img True,
         idle_tick 1000000000 True, idle_tick 2000000000 True, idle_tick 3000000000 True] =
        (None, small_display, nf, es) \<and>
      pushes es =
        [Push 1 filled_img True True,
         Push 1 backed_img False True, Push 1 backed_img False True, Push 1 backed_img False True])"
proof -
  have "\<forall>it \<in> set [idle_tick 1000000000 True, idle_tick 2000000000 True, idle_tick 3000000000 True].
          push_captured_image it \<and>
          (\<exists>p img. pull_free_image it = Some (p, img) \<and>
             fst (read_frame (fill it) small_display img) = Status timeout)"
    by (simp add: idle_tick_def empty_io_timeout)
  from timeout_repeats_buffer [OF first_frame_tick this] first_frame_tick show ?thesis
    by (simp add: repeat_push_def idle_tick_def pushes_def)
qed

subsection \<open>A declined push\<close>

text \<open>
  C6: when the consumer's push callback declines a frame in an iteration of the
  running loop, whether the fill reported \<open>ok\<close> (the frame is pushed as new) or
  \<open>timeout\<close> (it is pushed as a repeat), \<open>capture\<close> returns \<open>ok\<close> in that
  iteration, whatever iterations the environment would present afterwards. The
  declined push is the last action of the run.
\<close>

theorem push_declined_returns_ok:
  assumes "capture d start pre = (None, d1, nf1, es1)"
    and "pull_free_image it = Some (p, img)"
    and "read_frame (fill it) d1 img = (Status st, d2, img2, es2)"
    and "st = ok \<or> st = timeout"
    and "\<not> push_captured_image it"
  shows "\<exists>nf2 es.
           capture d start (pre @ it # post) = (Some (Returned ok), d2, nf2, es) \<and>
           last es = Push p img2 (st = ok) False \<and>
           pushes es = pushes es1 @ [Push p img2 (st = ok) False]"
proof -
  let ?nf = "fst (pace (delay d1) nf1 (now it))"
  let ?es = "snd (pace (delay d1) nf1 (now it)) @ [Pull p] @ es2 @ [Push p img2 (st = ok) False]"
  have iter: "capture_iter d1 nf1 it = (Some (Returned ok), d2, ?nf, ?es)"
    using capture_iter_pushed [OF assms(2,3,4), of nf1] assms(5) by simp
  then have "capture_loop d1 nf1 (it # post) = (Some (Returned ok), d2, ?nf, ?es)"
    by simp
  moreover have "capture_loop d start pre = (None, d1, nf1, es1)"
    using assms(1) by (simp add: capture_def)
  from capture_loop_append [OF this, of "it # post"]
  have "capture d start (pre @ it # post) =
          (case capture_loop d1 nf1 (it # post) of (r, d2, nf2, es2) \<Rightarrow> (r, d2, nf2, es1 @ es2))"
    by (simp add: capture_def)
  ultimately
  have "capture d start (pre @ it # post) = (Some (Returned ok), d2, ?nf, es1 @ ?es)"
    by simp
  moreover have "last (es1 @ ?es) = Push p img2 (st = ok) False"
    by simp
  moreover have "pushes (es1 @ ?es) = pushes es1 @ [Push p img2 (st = ok) False]"
    using pushes_read_frame [OF assms(3)]
    by (simp add: pushes_append pushes_pace) (simp add: pushes_def)
  ultimately show ?thesis by blast
qed

theorem push_declined_returns_ok_witness:
  "pull_free_image (frame_tick 1000000000 filled_img False) = Some (1, filled_img) \<and>
   \<not> push_captured_image (frame_tick 1000000000 filled_img False) \<and>
   (\<exists>nf2 es.
      capture opened_display 0
        [frame_tick 0 backed_img True, frame_tick 1000000000 filled_img False, refused_tick 0] =
        (Some (Returned ok), small_display, nf2, es) \<and>
      last es = Push 1 filled_img True False)"
proof -
  have pulled: "pull_free_image (frame_tick 1000000000 filled_img False) = Some (1, filled_img)"
    by (simp add: frame_tick_def)
  have fill: "read_frame (fill (frame_tick 1000000000 filled_img False)) small_display filled_img =
     (Status ok, small_display, filled_img,
      [AvReadFrame, SendPacket, PacketUnref, ReceiveFrame, SwsScale])"
    using small_refill by (simp add: frame_tick_def)
  have declined: "\<not> push_captured_image (frame_tick 1000000000 filled_img False)"
    by (simp add: frame_tick_def)
  from push_declined_returns_ok [OF first_frame_tick pulled fill _ declined, of "[refused_tick 0]"]
    pulled declined
  show ?thesis by auto
qed

end
